theory Spec2Isabelle
  imports Main "HOL-Library.Extended_Nat"
begin

section \<open>JavaScript string primitives used by the rule\<close>

text \<open>
  Specifiers and paths are JavaScript strings; the rule only ever inspects the
  characters \<open>/\<close>, \<open>.\<close> and \<open>*\<close> and fixed ASCII suffixes, so a string is
  modelled as a \<open>char list\<close>.
\<close>

definition startsWith :: "string \<Rightarrow> string \<Rightarrow> bool" where
  \<comment> \<open>\<^verbatim>\<open>s.startsWith(p)\<close>\<close>
  "startsWith s p = (take (length p) s = p)"

definition endsWith :: "string \<Rightarrow> string \<Rightarrow> bool" where
  \<comment> \<open>\<^verbatim>\<open>s.endsWith(p)\<close>; what a regular expression \<^verbatim>\<open>/p$/\<close> with a literal \<open>p\<close> tests\<close>
  "endsWith s p = (length p \<le> length s \<and> drop (length s - length p) s = p)"

definition slice_from :: "string \<Rightarrow> nat \<Rightarrow> string" where
  \<comment> \<open>\<^verbatim>\<open>s.slice(n)\<close> for \<open>n \<ge> 0\<close>\<close>
  "slice_from s n = drop n s"

fun split :: "string \<Rightarrow> char \<Rightarrow> string list" where
  \<comment> \<open>\<^verbatim>\<open>s.split(c)\<close> for a one-character separator: \<^verbatim>\<open>"".split("/")\<close> is \<^verbatim>\<open>[""]\<close>\<close>
  "split [] c = [[]]"
| "split (x # xs) c =
     (if x = c then [] # split xs c
      else (case split xs c of [] \<Rightarrow> [[x]] | p # ps \<Rightarrow> (x # p) # ps))"

definition removeLeading :: "string \<Rightarrow> string \<Rightarrow> string" where
  \<comment> \<open>\<^verbatim>\<open>s.replace(/^p/, "")\<close> for a literal \<open>p\<close>\<close>
  "removeLeading p s = (if startsWith s p then drop (length p) s else s)"

definition removeTrailing :: "string \<Rightarrow> string \<Rightarrow> string" where
  \<comment> \<open>\<^verbatim>\<open>s.replace(/p$/, "")\<close> for a literal \<open>p\<close>\<close>
  "removeTrailing p s = (if endsWith s p then take (length s - length p) s else s)"

definition removeSourceExtension :: "string \<Rightarrow> string" where
  \<comment> \<open>\<^verbatim>\<open>s.replace(/\.(ts|tsx|js|jsx)$/, "")\<close>: at most one of the four suffixes
      can end a given string, so the order of the alternatives does not matter\<close>
  "removeSourceExtension s =
     (if endsWith s ''.ts'' then take (length s - 3) s
      else if endsWith s ''.tsx'' then take (length s - 4) s
      else if endsWith s ''.js'' then take (length s - 3) s
      else if endsWith s ''.jsx'' then take (length s - 4) s
      else s)"

section \<open>Segment counting\<close>

definition countSegments :: "string \<Rightarrow> nat" where
  "countSegments importPath =
     (let segments = filter (\<lambda>s. s \<noteq> [] \<and> s \<noteq> ''.'')
                       (split (removeLeading ''./'' importPath) (CHR ''/''))
      in length segments)"

section \<open>Node's POSIX \<open>path\<close> module\<close>

text \<open>
  The rule calls \<^verbatim>\<open>path.dirname\<close>, \<^verbatim>\<open>path.join\<close>, \<^verbatim>\<open>path.resolve\<close> and
  \<^verbatim>\<open>path.relative\<close> of Node's standard library (POSIX flavour). Node scans
  the characters of a path; the model walks over the \<open>/\<close>-separated segments,
  which is the same computation: empty and \<open>.\<close> segments are skipped, a \<open>..\<close>
  removes the segment before it when there is one that is not itself \<open>..\<close>, and
  is otherwise kept only when the path may climb above its start.
  \<^verbatim>\<open>process.cwd()\<close>, an absolute path, is an input of the model.
\<close>

fun joinSegments :: "string list \<Rightarrow> string" where
  \<comment> \<open>\<^verbatim>\<open>segs.join("/")\<close>\<close>
  "joinSegments [] = []"
| "joinSegments [s] = s"
| "joinSegments (s # t # ss) = s @ ''/'' @ joinSegments (t # ss)"

fun normalizeSegments :: "bool \<Rightarrow> string list \<Rightarrow> string list \<Rightarrow> string list" where
  "normalizeSegments allowAboveRoot res [] = res"
| "normalizeSegments allowAboveRoot res (seg # segs) =
     (if seg = [] \<or> seg = ''.'' then normalizeSegments allowAboveRoot res segs
      else if seg = ''..'' then
        (if res \<noteq> [] \<and> last res \<noteq> ''..''
         then normalizeSegments allowAboveRoot (butlast res) segs
         else if allowAboveRoot
         then normalizeSegments allowAboveRoot (res @ [''..'']) segs
         else normalizeSegments allowAboveRoot res segs)
      else normalizeSegments allowAboveRoot (res @ [seg]) segs)"

definition normalizeString :: "string \<Rightarrow> bool \<Rightarrow> string" where
  "normalizeString path allowAboveRoot =
     joinSegments (normalizeSegments allowAboveRoot [] (split path (CHR ''/'')))"

definition isAbsolute :: "string \<Rightarrow> bool" where
  "isAbsolute path = (case path of [] \<Rightarrow> False | c # _ \<Rightarrow> c = CHR ''/'')"

definition path_normalize :: "string \<Rightarrow> string" where
  "path_normalize path =
     (if path = [] then ''.''
      else
        (let trailingSeparator = (last path = CHR ''/'');
             normalized = normalizeString path (\<not> isAbsolute path)
         in if normalized = []
            then (if isAbsolute path then ''/'' else if trailingSeparator then ''./'' else ''.'')
            else (if isAbsolute path then ''/'' else []) @ normalized
                 @ (if trailingSeparator then ''/'' else [])))"

definition path_join :: "string list \<Rightarrow> string" where
  "path_join args =
     (let joined = joinSegments (filter (\<lambda>arg. arg \<noteq> []) args)
      in if joined = [] then ''.'' else path_normalize joined)"

fun resolveLoop :: "string list \<Rightarrow> string \<Rightarrow> string \<times> bool" where
  \<comment> \<open>the arguments from right to left, the working directory last; stops at the
      first absolute one\<close>
  "resolveLoop [] resolvedPath = (resolvedPath, False)"
| "resolveLoop (path # rest) resolvedPath =
     (if path = [] then resolveLoop rest resolvedPath
      else if isAbsolute path then (path @ ''/'' @ resolvedPath, True)
      else resolveLoop rest (path @ ''/'' @ resolvedPath))"

definition path_resolve :: "string \<Rightarrow> string list \<Rightarrow> string" where
  "path_resolve cwd args =
     (case resolveLoop (rev args @ [cwd]) [] of
        (resolvedPath, resolvedAbsolute) \<Rightarrow>
          (let normalized = normalizeString resolvedPath (\<not> resolvedAbsolute)
           in if resolvedAbsolute then CHR ''/'' # normalized
              else if normalized \<noteq> [] then normalized else ''.''))"

fun dropCommon :: "string list \<Rightarrow> string list \<Rightarrow> string list \<times> string list" where
  "dropCommon (x # xs) (y # ys) = (if x = y then dropCommon xs ys else (x # xs, y # ys))"
| "dropCommon xs ys = (xs, ys)"

definition pathSegments :: "string \<Rightarrow> string list" where
  \<comment> \<open>the segments of a resolved path: none for the root \<open>/\<close>\<close>
  "pathSegments path = filter (\<lambda>s. s \<noteq> []) (split path (CHR ''/''))"

definition path_relative :: "string \<Rightarrow> string \<Rightarrow> string \<Rightarrow> string" where
  \<comment> \<open>as many \<open>..\<close> as \<open>from\<close> has segments after the common ones, then the rest of \<open>to\<close>\<close>
  "path_relative cwd from to =
     (if from = to then []
      else
        (let from' = path_resolve cwd [from]; to' = path_resolve cwd [to]
         in if from' = to' then []
            else (case dropCommon (pathSegments from') (pathSegments to') of
                    (fromRest, toRest) \<Rightarrow>
                      joinSegments (replicate (length fromRest) ''..'' @ toRest))))"

primrec dirnameLoop :: "string \<Rightarrow> nat \<Rightarrow> bool \<Rightarrow> nat option" where
  \<comment> \<open>the scan of \<^verbatim>\<open>path.dirname\<close> from index \<open>i\<close> down to 1: the first \<open>/\<close> met
      after a character that is not one\<close>
  "dirnameLoop path 0 matchedSlash = None"
| "dirnameLoop path (Suc k) matchedSlash =
     (if path ! Suc k = CHR ''/''
      then (if \<not> matchedSlash then Some (Suc k) else dirnameLoop path k matchedSlash)
      else dirnameLoop path k False)"

definition path_dirname :: "string \<Rightarrow> string" where
  "path_dirname path =
     (if path = [] then ''.''
      else (case dirnameLoop path (length path - 1) True of
              None \<Rightarrow> (if isAbsolute path then ''/'' else ''.'')
            | Some end \<Rightarrow> (if isAbsolute path \<and> end = 1 then ''//'' else take end path)))"

section \<open>The resolver of the \<open>tsconfig-paths\<close> package\<close>

text \<open>
  \<^verbatim>\<open>createMatchPath(absoluteBaseUrl, paths)\<close> comes from the package
  \<open>tsconfig-paths\<close>. The rule calls the function it returns as
  \<^verbatim>\<open>matchPath(source, undefined, undefined, extensions)\<close>: with both callbacks
  left undefined the package reads the disk, so the file system is an input of
  the model: which paths are files, and the \<open>main\<close> field of each
  \<open>package.json\<close>. Every \<open>package.json\<close> on the disk is taken to be
  well-formed: the package reads it with \<^verbatim>\<open>require\<close>, which throws on a file
  that is not. The functions below follow the package's
  \<open>mapping-entry\<close>, \<open>try-path\<close>, \<open>match-path-sync\<close> and \<open>filesystem\<close> modules.
\<close>

type_synonym paths = "(string \<times> string list) list"
  \<comment> \<open>the \<open>paths\<close> object as \<^verbatim>\<open>Object.entries\<close> lists it: keys in insertion order\<close>

record filesystem =
  fileExistsSync :: "string \<Rightarrow> bool"
  readMainField :: "string \<Rightarrow> string option"

fun indexOf :: "string \<Rightarrow> char \<Rightarrow> nat option" where
  "indexOf [] c = None"
| "indexOf (x # xs) c = (if x = c then Some 0 else map_option Suc (indexOf xs c))"

definition lastIndexOf :: "string \<Rightarrow> char \<Rightarrow> nat option" where
  "lastIndexOf s c = map_option (\<lambda>i. length s - 1 - i) (indexOf (rev s) c)"

definition getPrefixLength :: "string \<Rightarrow> nat" where
  \<comment> \<open>\<^verbatim>\<open>pattern.substr(0, pattern.indexOf("*")).length\<close>: 0 without a star\<close>
  "getPrefixLength pattern = (case indexOf pattern (CHR ''*'') of None \<Rightarrow> 0 | Some i \<Rightarrow> i)"

definition sortByLongestPrefix :: "string list \<Rightarrow> string list" where
  \<comment> \<open>a stable sort, longest prefix first\<close>
  "sortByLongestPrefix arr = sort_key (\<lambda>a. - int (getPrefixLength a)) arr"

definition getAbsoluteMappingEntries ::
  "string \<Rightarrow> string \<Rightarrow> paths \<Rightarrow> bool \<Rightarrow> (string \<times> string list) list" where
  "getAbsoluteMappingEntries cwd absoluteBaseUrl paths addMatchAll =
     map (\<lambda>pattern.
            (pattern,
             map (\<lambda>pathToResolve. path_resolve cwd [absoluteBaseUrl, pathToResolve])
               (case map_of paths pattern of None \<Rightarrow> [] | Some targets \<Rightarrow> targets)))
       (sortByLongestPrefix (map fst paths))
     @ (if map_of paths ''*'' = None \<and> addMatchAll
        then [(''*'', [removeTrailing ''/'' absoluteBaseUrl @ ''/*''])]
        else [])"

definition matchStar :: "string \<Rightarrow> string \<Rightarrow> string option" where
  "matchStar pattern search =
     (if length search < length pattern then None
      else if pattern = ''*'' then Some search
      else (case indexOf pattern (CHR ''*'') of
              None \<Rightarrow> None
            | Some star \<Rightarrow>
                (let part1 = take star pattern; part2 = drop (star + 1) pattern
                 in if take star search \<noteq> part1 then None
                    else if drop (length search - length part2) search \<noteq> part2 then None
                    else Some (take (length search - length part2) (drop star search)))))"

fun getSubstitution :: "string \<Rightarrow> string \<Rightarrow> string \<Rightarrow> string \<Rightarrow> string" where
  \<comment> \<open>the replacement text of \<^verbatim>\<open>String.prototype.replace\<close> for a string pattern:
      \<open>$$\<close> is a dollar, \<open>$&\<close> the matched text, \<open>$\<close> with a backquote the text
      before the match, \<open>$\<close> with a quote the text after it; there are no groups,
      so any other \<open>$\<close> stands for itself\<close>
  "getSubstitution matched front back [] = []"
| "getSubstitution matched front back [c] = [c]"
| "getSubstitution matched front back (c # d # rest) =
     (if c = CHR ''$'' \<and> d = CHR ''$'' then CHR ''$'' # getSubstitution matched front back rest
      else if c = CHR ''$'' \<and> d = CHR ''&'' then matched @ getSubstitution matched front back rest
      else if c = CHR ''$'' \<and> d = CHR 0x60 then front @ getSubstitution matched front back rest
      else if c = CHR ''$'' \<and> d = CHR 0x27 then back @ getSubstitution matched front back rest
      else c # getSubstitution matched front back (d # rest))"

definition replaceStar :: "string \<Rightarrow> string \<Rightarrow> string" where
  \<comment> \<open>\<^verbatim>\<open>pattern.replace("*", starMatch)\<close>: the first star only\<close>
  "replaceStar pattern starMatch =
     (case indexOf pattern (CHR ''*'') of
        None \<Rightarrow> pattern
      | Some star \<Rightarrow>
          (let front = take star pattern; back = drop (star + 1) pattern
           in front @ getSubstitution ''*'' front back starMatch @ back))"

datatype tryPathType = TryFile | TryExtension | TryPackage | TryIndex

definition pathsToTryFor :: "string list \<Rightarrow> string \<Rightarrow> (tryPathType \<times> string) list" where
  \<comment> \<open>the candidates \<open>getPathsToTry\<close> pushes for one physical path\<close>
  "pathsToTryFor extensions physicalPath =
     [(TryFile, physicalPath)]
     @ map (\<lambda>e. (TryExtension, physicalPath @ e)) extensions
     @ [(TryPackage, path_join [physicalPath, ''/package.json''])]
     @ (let indexPath = path_join [physicalPath, ''/index'']
        in map (\<lambda>e. (TryIndex, indexPath @ e)) extensions)"

definition getPathsToTry ::
  "string list \<Rightarrow> (string \<times> string list) list \<Rightarrow> string
     \<Rightarrow> (tryPathType \<times> string) list option" where
  "getPathsToTry extensions absolutePathMappings requestedModule =
     (if requestedModule = [] \<or> hd requestedModule = CHR ''.'' then None
      else
        (let pathsToTry =
               concat (map (\<lambda>(pattern, physicalPathPatterns).
                  (case (if pattern = requestedModule then Some []
                         else matchStar pattern requestedModule) of
                     None \<Rightarrow> []
                   | Some starMatch \<Rightarrow>
                       concat (map (\<lambda>physicalPathPattern.
                         pathsToTryFor extensions (replaceStar physicalPathPattern starMatch))
                         physicalPathPatterns)))
                 absolutePathMappings)
         in if pathsToTry = [] then None else Some pathsToTry))"

definition removeExtension :: "string \<Rightarrow> string" where
  \<comment> \<open>\<^verbatim>\<open>path.substring(0, path.lastIndexOf(".")) || path\<close>\<close>
  "removeExtension path =
     (case lastIndexOf path (CHR ''.'') of
        None \<Rightarrow> path
      | Some i \<Rightarrow> (if take i path = [] then path else take i path))"

definition getStrippedPath :: "tryPathType \<times> string \<Rightarrow> string" where
  "getStrippedPath tryPath =
     (case tryPath of
        (TryIndex, path) \<Rightarrow> path_dirname path
      | (TryFile, path) \<Rightarrow> path
      | (TryExtension, path) \<Rightarrow> removeExtension path
      | (TryPackage, path) \<Rightarrow> path)"

fun findFirstExistingPath :: "filesystem \<Rightarrow> (tryPathType \<times> string) list \<Rightarrow> string option" where
  "findFirstExistingPath fs [] = None"
| "findFirstExistingPath fs ((type, path) # rest) =
     (if type = TryPackage then
        (case readMainField fs path of
           None \<Rightarrow> findFirstExistingPath fs rest
         | Some main \<Rightarrow>
             (let candidateFilePath = path_join [path_dirname path, main]
              in if main \<noteq> [] \<and> fileExistsSync fs candidateFilePath
                 then Some candidateFilePath
                 else findFirstExistingPath fs rest))
      else if fileExistsSync fs path then Some (getStrippedPath (type, path))
      else findFirstExistingPath fs rest)"

definition createMatchPath ::
  "string \<Rightarrow> filesystem \<Rightarrow> string \<Rightarrow> paths \<Rightarrow> string \<Rightarrow> string list \<Rightarrow> string option" where
  \<comment> \<open>\<open>addMatchAll\<close> is left at its default, \<open>true\<close>\<close>
  "createMatchPath cwd fs absoluteBaseUrl paths =
     (\<lambda>requestedModule extensions.
        (case getPathsToTry extensions
                (getAbsoluteMappingEntries cwd absoluteBaseUrl paths True) requestedModule of
           None \<Rightarrow> None
         | Some tryPaths \<Rightarrow> findFirstExistingPath fs tryPaths))"

section \<open>The rule \<open>shortest-import\<close>\<close>

subsection \<open>Alias table\<close>

type_synonym aliasTable = "(string \<times> string) list"
  \<comment> \<open>a JavaScript \<open>Map\<close> from target path to alias prefix, in iteration order\<close>

fun mapSet :: "aliasTable \<Rightarrow> string \<Rightarrow> string \<Rightarrow> aliasTable" where
  \<comment> \<open>\<^verbatim>\<open>map.set(key, value)\<close>: a key already there keeps its place and takes the new value\<close>
  "mapSet [] key v = [(key, v)]"
| "mapSet ((k, w) # m) key v = (if k = key then (k, v) # m else (k, w) # mapSet m key v)"

fun buildAliasTargets ::
  "string \<Rightarrow> string \<Rightarrow> string \<Rightarrow> string list \<Rightarrow> aliasTable \<Rightarrow> aliasTable" where
  \<comment> \<open>the inner loop of \<open>buildAliasMap\<close>, over the targets of one alias\<close>
  "buildAliasTargets cwd baseUrl alias [] m = m"
| "buildAliasTargets cwd baseUrl alias (target # targets) m =
     (let cleanAlias = removeTrailing ''/*'' alias;
          cleanTarget = removeTrailing ''/*'' target;
          absoluteTarget = path_resolve cwd [baseUrl, cleanTarget]
      in buildAliasTargets cwd baseUrl alias targets (mapSet m absoluteTarget cleanAlias))"

fun buildAliasEntries :: "string \<Rightarrow> string \<Rightarrow> paths \<Rightarrow> aliasTable \<Rightarrow> aliasTable" where
  \<comment> \<open>the outer loop of \<open>buildAliasMap\<close>, over \<^verbatim>\<open>Object.entries(paths)\<close>\<close>
  "buildAliasEntries cwd baseUrl [] m = m"
| "buildAliasEntries cwd baseUrl ((alias, targets) # rest) m =
     buildAliasEntries cwd baseUrl rest (buildAliasTargets cwd baseUrl alias targets m)"

definition buildAliasMap :: "string \<Rightarrow> string \<Rightarrow> paths \<Rightarrow> aliasTable" where
  "buildAliasMap cwd baseUrl paths = buildAliasEntries cwd baseUrl paths []"

subsection \<open>Relative to aliased\<close>

fun findShortestAliasLoop ::
  "string \<Rightarrow> aliasTable \<Rightarrow> string option \<times> enat \<Rightarrow> string option \<times> enat" where
  \<comment> \<open>the loop of \<open>findShortestAlias\<close> on the pair \<open>(shortestAlias, shortestSegments)\<close>\<close>
  "findShortestAliasLoop normalized [] state = state"
| "findShortestAliasLoop normalized ((targetPath, aliasPrefix) # rest)
       (shortestAlias, shortestSegments) =
     (if startsWith normalized targetPath then
        (let remainder = slice_from normalized (length targetPath);
             aliasImport = removeTrailing ''/index'' (aliasPrefix @ remainder);
             segments = countSegments aliasImport
         in if enat segments < shortestSegments
            then findShortestAliasLoop normalized rest (Some aliasImport, enat segments)
            else findShortestAliasLoop normalized rest (shortestAlias, shortestSegments))
      else findShortestAliasLoop normalized rest (shortestAlias, shortestSegments))"

definition findShortestAlias :: "string \<Rightarrow> string \<Rightarrow> aliasTable \<Rightarrow> string option" where
  "findShortestAlias absolutePath baseUrl aliasMap =
     (let normalized = removeSourceExtension absolutePath
      in fst (findShortestAliasLoop normalized aliasMap (None, \<infinity>)))"

subsection \<open>Aliased to relative\<close>

definition toRelativeImport :: "string \<Rightarrow> string \<Rightarrow> string \<Rightarrow> string" where
  "toRelativeImport cwd fromDir toAbsolute =
     (let relative = path_relative cwd fromDir toAbsolute;
          relative = (if \<not> startsWith relative ''.'' then ''./'' @ relative else relative);
          relative = removeSourceExtension relative;
          relative = removeTrailing ''/index'' relative
      in relative)"

subsection \<open>The listener\<close>

record sourceLiteral =
  sourceValue :: "string option"  \<comment> \<open>\<open>node.source.value\<close>; \<open>None\<close> when it is not a string\<close>
  sourceRaw :: string             \<comment> \<open>the text of the literal in the file, quotes included\<close>

record report =
  shorter :: string
  shorterCount :: nat
  currentCount :: nat
  fixText :: string  \<comment> \<open>what \<^verbatim>\<open>fixer.replaceText(node.source, ...)\<close> puts in place of the literal\<close>

record ruleState =
  st_cwd :: string
  st_fileDir :: string
  st_absoluteBaseUrl :: string
  st_matchPath :: "string \<Rightarrow> string list \<Rightarrow> string option"
  st_aliasMap :: aliasTable

definition doubleQuote :: char where
  "doubleQuote = CHR 0x22"

definition extensions :: "string list" where
  "extensions = [''.ts'', ''.tsx'', ''.js'', ''.jsx'', []]"

definition ImportDeclaration :: "ruleState \<Rightarrow> sourceLiteral \<Rightarrow> report option" where
  \<comment> \<open>\<open>None\<close>: the listener returns without a call of \<open>context.report\<close>\<close>
  "ImportDeclaration st node =
     (case sourceValue node of
        None \<Rightarrow> None
      | Some source \<Rightarrow>
          (let isRelative = startsWith source ''.'';
               currentSegments = countSegments source
           in if isRelative then
                (let absolutePath = path_resolve (st_cwd st) [st_fileDir st, source]
                 in case findShortestAlias absolutePath (st_absoluteBaseUrl st) (st_aliasMap st) of
                      None \<Rightarrow> None
                    | Some aliasImport \<Rightarrow>
                        if aliasImport = [] then None
                        else
                          (let aliasSegments = countSegments aliasImport
                           in if aliasSegments < currentSegments
                              then Some \<lparr>shorter = aliasImport,
                                         shorterCount = aliasSegments,
                                         currentCount = currentSegments,
                                         fixText = [doubleQuote] @ aliasImport @ [doubleQuote]\<rparr>
                              else None))
              else
                (case st_matchPath st source extensions of
                   None \<Rightarrow> None
                 | Some resolved \<Rightarrow>
                     if resolved = [] then None
                     else
                       (let relativeImport = toRelativeImport (st_cwd st) (st_fileDir st) resolved;
                            relativeSegments = countSegments relativeImport
                        in if relativeSegments < currentSegments
                           then Some \<lparr>shorter = relativeImport,
                                      shorterCount = relativeSegments,
                                      currentCount = currentSegments,
                                      fixText = [doubleQuote] @ relativeImport @ [doubleQuote]\<rparr>
                           else None))))"

subsection \<open>Rule creation\<close>

datatype configLoaderResult = ConfigFailed | ConfigSuccess string paths

datatype exception =
    ENOENT string     \<comment> \<open>\<^verbatim>\<open>fs.statSync\<close> on a path that does not exist\<close>
  | Malformed string  \<comment> \<open>the parse of a file that is not a configuration\<close>

text \<open>
  \<^verbatim>\<open>loadConfig\<close> of \<open>tsconfig-paths\<close> either returns, with the result type
  \<open>failed\<close> or \<open>success\<close>, or throws: it calls \<^verbatim>\<open>fs.statSync\<close> on the path
  it is given and parses the file it finds. \<open>Inl\<close> is the exception thrown.
\<close>

record world =
  processCwd :: string
  loadConfig :: "string \<Rightarrow> exception + configLoaderResult"
  disk :: filesystem

record options =
  tsconfigPath :: "string option"

definition tsconfigPathOf :: "world \<Rightarrow> options \<Rightarrow> string" where
  \<comment> \<open>\<^verbatim>\<open>options.tsconfigPath ?? path.join(process.cwd(), "tsconfig.json")\<close>\<close>
  "tsconfigPathOf w opts =
     (case tsconfigPath opts of
        Some p \<Rightarrow> p
      | None \<Rightarrow> path_join [processCwd w, ''tsconfig.json''])"

definition create :: "world \<Rightarrow> string \<Rightarrow> options \<Rightarrow> exception + ruleState option" where
  \<comment> \<open>\<open>Inl\<close>: the call of \<open>loadConfig\<close> throws; \<open>create\<close> has no \<^verbatim>\<open>try\<close>, so the
      exception leaves the rule. \<open>Inr None\<close>: the rule returns \<^verbatim>\<open>{}\<close>, no listener
      is installed\<close>
  "create w filename opts =
     (let fileDir = path_dirname filename;
          tsconfig = tsconfigPathOf w opts
      in case loadConfig w tsconfig of
           Inl e \<Rightarrow> Inl e
         | Inr ConfigFailed \<Rightarrow> Inr None
         | Inr (ConfigSuccess absoluteBaseUrl paths) \<Rightarrow>
             Inr (Some \<lparr>st_cwd = processCwd w,
                   st_fileDir = fileDir,
                   st_absoluteBaseUrl = absoluteBaseUrl,
                   st_matchPath = createMatchPath (processCwd w) (disk w) absoluteBaseUrl paths,
                   st_aliasMap = buildAliasMap (processCwd w) absoluteBaseUrl paths\<rparr>))"

definition lint ::
  "world \<Rightarrow> string \<Rightarrow> options \<Rightarrow> sourceLiteral \<Rightarrow> exception + report option" where
  \<comment> \<open>the rule on one import declaration of the file\<close>
  "lint w filename opts node =
     (case create w filename opts of
        Inl e \<Rightarrow> Inl e
      | Inr None \<Rightarrow> Inr None
      | Inr (Some st) \<Rightarrow> Inr (ImportDeclaration st node))"

datatype verdict = Keep | Replace string

definition verdictOf :: "report option \<Rightarrow> verdict" where
  "verdictOf r = (case r of None \<Rightarrow> Keep | Some rep \<Rightarrow> Replace (shorter rep))"

subsection \<open>What the listener compares\<close>

definition alternative :: "ruleState \<Rightarrow> string \<Rightarrow> string option" where
  \<comment> \<open>the form of the other kind that the listener computes for a specifier, before
      any comparison: the result of \<open>findShortestAlias\<close> for a relative specifier
      (tested with \<^verbatim>\<open>if (aliasImport)\<close>, so an empty string is no alternative), the
      result of \<open>toRelativeImport\<close> on what \<open>matchPath\<close> resolves otherwise (tested
      with \<^verbatim>\<open>if (!resolved) return\<close>)\<close>
  "alternative st source =
     (if startsWith source ''.'' then
        (case findShortestAlias (path_resolve (st_cwd st) [st_fileDir st, source])
                (st_absoluteBaseUrl st) (st_aliasMap st) of
           None \<Rightarrow> None
         | Some aliasImport \<Rightarrow> (if aliasImport = [] then None else Some aliasImport))
      else
        (case st_matchPath st source extensions of
           None \<Rightarrow> None
         | Some resolved \<Rightarrow>
             (if resolved = [] then None
              else Some (toRelativeImport (st_cwd st) (st_fileDir st) resolved))))"

definition aliasCandidates :: "string \<Rightarrow> aliasTable \<Rightarrow> string list" where
  \<comment> \<open>the alias forms \<open>findShortestAlias\<close> computes, one per entry whose target
      the normalized path starts with, in the order of the table\<close>
  "aliasCandidates normalized aliasMap =
     map (\<lambda>(targetPath, aliasPrefix).
            removeTrailing ''/index'' (aliasPrefix @ slice_from normalized (length targetPath)))
       (filter (\<lambda>(targetPath, aliasPrefix). startsWith normalized targetPath) aliasMap)"

definition aliasPairs :: "string \<Rightarrow> string \<Rightarrow> paths \<Rightarrow> (string \<times> string) list" where
  \<comment> \<open>one (absolute target, clean alias) pair per alias and target of the
      configuration, in configuration order\<close>
  "aliasPairs cwd baseUrl paths =
     concat (map (\<lambda>(alias, targets).
                    map (\<lambda>target. (path_resolve cwd [baseUrl, removeTrailing ''/*'' target],
                                    removeTrailing ''/*'' alias)) targets) paths)"

datatype jsonValue = JsonString string | JsonOther

definition schemaAccepts :: "(string \<times> jsonValue) list \<Rightarrow> bool" where
  \<comment> \<open>\<open>meta.schema\<close>: an object whose only property is the string \<open>tsconfigPath\<close>,
      \<open>additionalProperties: false\<close>\<close>
  "schemaAccepts obj =
     list_all (\<lambda>(key, v). key = ''tsconfigPath'' \<and> (case v of JsonString _ \<Rightarrow> True | JsonOther \<Rightarrow> False))
       obj"

subsection \<open>A project to run the rule on\<close>

text \<open>
  The project of the rule's tests: base directory \<open>/src\<close>, the aliases \<open>@/*\<close>,
  \<open>@components/*\<close> and \<open>@utils/*\<close>, and a few source files on disk.
\<close>

definition fixturePaths :: paths where
  "fixturePaths =
     [(''@/*'', [''./*'']),
      (''@components/*'', [''./components/*'']),
      (''@utils/*'', [''./utils/*''])]"

definition diskWith :: "string list \<Rightarrow> filesystem" where
  \<comment> \<open>a disk holding exactly the given files, none of them a \<open>package.json\<close>\<close>
  "diskWith files = \<lparr>fileExistsSync = (\<lambda>p. p \<in> set files), readMainField = (\<lambda>p. None)\<rparr>"

definition fixtureFiles :: "string list" where
  "fixtureFiles =
     [''/src/utils/helpers.ts'',
      ''/src/components/Button.ts'',
      ''/src/components/index.ts'',
      ''/src/features/auth/login.ts'']"

definition isDirectoryOn :: "string list \<Rightarrow> string \<Rightarrow> bool" where
  \<comment> \<open>the directories of a disk that holds the given files: the root and every
      directory above a file\<close>
  "isDirectoryOn files dir = (dir = ''/'' \<or> list_ex (\<lambda>f. startsWith f (dir @ ''/'')) files)"

definition loadConfigOn ::
  "(string \<times> paths) option \<Rightarrow> string list \<Rightarrow> string \<Rightarrow> exception + configLoaderResult" where
  \<comment> \<open>\<open>loadConfig\<close> on a disk that holds the given source files and, when there
      is a configuration, the file \<open>/tsconfig.json\<close> with that base directory and
      those paths. The configuration file loads. A source file is read as a
      configuration and is not one. From a directory the package walks up to the
      nearest \<open>tsconfig.json\<close>, the one at the root if there is one, and the result
      is \<open>failed\<close> if there is none. On any other path \<^verbatim>\<open>fs.statSync\<close> throws.\<close>
  "loadConfigOn config files p =
     (let q = path_resolve ''/'' [p];
          found = (case config of
                     None \<Rightarrow> ConfigFailed
                   | Some (baseUrl, paths) \<Rightarrow> ConfigSuccess baseUrl paths)
      in if config \<noteq> None \<and> q = ''/tsconfig.json'' then Inr found
         else if q \<in> set files then Inl (Malformed p)
         else if isDirectoryOn files q then Inr found
         else Inl (ENOENT p))"

definition projectWorld :: "string \<Rightarrow> paths \<Rightarrow> string list \<Rightarrow> world" where
  \<comment> \<open>working directory \<open>/\<close>, a \<open>/tsconfig.json\<close> that loads with the given base
      directory and paths, and the given files on disk\<close>
  "projectWorld baseUrl paths files =
     \<lparr>processCwd = ''/'',
      loadConfig = loadConfigOn (Some (baseUrl, paths)) files,
      disk = diskWith files\<rparr>"

definition bareWorld :: "string list \<Rightarrow> world" where
  \<comment> \<open>working directory \<open>/\<close> and the given files on disk, no \<open>tsconfig.json\<close>\<close>
  "bareWorld files =
     \<lparr>processCwd = ''/'',
      loadConfig = loadConfigOn None files,
      disk = diskWith files\<rparr>"

definition projectState :: "string \<Rightarrow> paths \<Rightarrow> string list \<Rightarrow> string \<Rightarrow> ruleState" where
  \<comment> \<open>what \<open>create\<close> builds in such a world for a file\<close>
  "projectState baseUrl paths files filename =
     \<lparr>st_cwd = ''/'',
      st_fileDir = path_dirname filename,
      st_absoluteBaseUrl = baseUrl,
      st_matchPath = createMatchPath ''/'' (diskWith files) baseUrl paths,
      st_aliasMap = buildAliasMap ''/'' baseUrl paths\<rparr>"

definition fixtureWorld :: world where
  "fixtureWorld = projectWorld ''/src'' fixturePaths fixtureFiles"

definition fixtureState :: "string \<Rightarrow> ruleState" where
  "fixtureState filename = projectState ''/src'' fixturePaths fixtureFiles filename"

definition utilsPaths :: paths where
  \<comment> \<open>a configuration with the single alias \<open>@utils/*\<close>\<close>
  "utilsPaths = [(''@utils/*'', [''./utils/*''])]"

definition sharedTargetPaths :: paths where
  \<comment> \<open>a configuration with two aliases for the directory \<open>components\<close>\<close>
  "sharedTargetPaths =
     [(''@c/*'', [''./components/*'']),
      (''@very/long/alias/*'', [''./components/*''])]"

definition defaultOptions :: options where
  "defaultOptions = \<lparr>tsconfigPath = None\<rparr>"

definition stringLiteral :: "char \<Rightarrow> string \<Rightarrow> sourceLiteral" where
  \<comment> \<open>the literal for a specifier written between two quote characters \<open>q\<close>\<close>
  "stringLiteral q s = \<lparr>sourceValue = Some s, sourceRaw = q # s @ [q]\<rparr>"

definition singleQuote :: char where
  "singleQuote = CHR 0x27"

section \<open>Properties of the string primitives\<close>

lemma split_not_Nil: "split s c \<noteq> []"
  by (cases s) (auto split: list.splits)

lemma split_no_separator: "p \<in> set (split s c) \<Longrightarrow> c \<notin> set p"
proof (induction s arbitrary: p)
  case Nil
  then show ?case by simp
next
  case (Cons x xs)
  then show ?case
    by (cases "split xs c") (auto split: if_splits)
qed

lemma split_covers: "c \<in> set s \<Longrightarrow> c \<noteq> sep \<Longrightarrow> \<exists>p \<in> set (split s sep). c \<in> set p"
proof (induction s)
  case Nil
  then show ?case by simp
next
  case (Cons x xs)
  then show ?case
    by (cases "split xs sep") (auto split: if_splits)
qed

section \<open>The path functions on the examples of Node's documentation\<close>

lemma path_documented_examples:
  "path_resolve ''/home'' [''/foo/bar'', ''./baz''] = ''/foo/bar/baz''"
  "path_resolve ''/home'' [''/foo/bar'', ''/tmp/file/''] = ''/tmp/file''"
  "path_resolve ''/home/myself/node'' [''wwwroot'', ''static_files/png/'', ''../gif/image.gif'']
     = ''/home/myself/node/wwwroot/static_files/gif/image.gif''"
  "path_relative ''/home'' ''/data/orandea/test/aaa'' ''/data/orandea/impl/bbb''
     = ''../../impl/bbb''"
  "path_dirname ''/foo/bar/baz/asdf/quux'' = ''/foo/bar/baz/asdf''"
  "path_join [''/foo'', ''bar'', ''baz/asdf'', ''quux'', ''..''] = ''/foo/bar/baz/asdf''"
  "path_normalize ''/foo/bar//baz/asdf/quux/..'' = ''/foo/bar/baz/asdf''"
  by code_simp+

text \<open>The leading \<open>./\<close> that \<open>countSegments\<close> removes would not have been counted.\<close>

lemma countSegments_split:
  "countSegments t = length [p \<leftarrow> split t (CHR ''/''). p \<noteq> [] \<and> p \<noteq> ''.'']"
proof (cases "startsWith t ''./''")
  case True
  then obtain u where "t = ''./'' @ u"
    by (metis append_take_drop_id startsWith_def)
  then show ?thesis
    by (simp add: countSegments_def removeLeading_def startsWith_def)
next
  case False
  then show ?thesis
    by (simp add: countSegments_def removeLeading_def)
qed

section \<open>Segment counting\<close>

text \<open>
  C2. The segment-counting function strips a single leading \<open>./\<close>, splits on \<open>/\<close>,
  discards the empty segments and the segments equal to \<open>.\<close>, keeps the segments
  equal to \<open>..\<close>, and returns the number of segments left; it gives 1 for \<open>./foo\<close>,
  3 for \<open>../bar/baz\<close>, 2 for \<open>@components/Button\<close>, 3 for \<open>@/components/Button\<close>,
  1 for \<open>@utils\<close> and 3 for \<open>a/b/c\<close>.
\<close>

theorem countSegments_spec:
  "countSegments s =
     length [p \<leftarrow> split (if startsWith s ''./'' then drop 2 s else s) (CHR ''/'').
               p \<noteq> [] \<and> p \<noteq> ''.'']
   \<and> countSegments (''../'' @ s) = Suc (countSegments s)
   \<and> countSegments ''./foo'' = 1
   \<and> countSegments ''../bar/baz'' = 3
   \<and> countSegments ''@components/Button'' = 2
   \<and> countSegments ''@/components/Button'' = 3
   \<and> countSegments ''@utils'' = 1
   \<and> countSegments ''a/b/c'' = 3"
proof -
  have general: "countSegments s =
     length [p \<leftarrow> split (if startsWith s ''./'' then drop 2 s else s) (CHR ''/'').
               p \<noteq> [] \<and> p \<noteq> ''.'']"
    by (simp add: countSegments_def removeLeading_def numeral_2_eq_2)
  have parent: "countSegments (''../'' @ s) = Suc (countSegments s)"
    by (simp add: countSegments_split)
  have examples: "countSegments ''./foo'' = 1" "countSegments ''../bar/baz'' = 3"
    "countSegments ''@components/Button'' = 2" "countSegments ''@/components/Button'' = 3"
    "countSegments ''@utils'' = 1" "countSegments ''a/b/c'' = 3"
    by (simp_all add: countSegments_split)
  from general parent examples show ?thesis by blast
qed

section \<open>Properties of the listener\<close>

lemma ImportDeclaration_alternative:
  assumes "sourceValue node = Some source"
  shows "ImportDeclaration st node =
     (case alternative st source of
        None \<Rightarrow> None
      | Some a \<Rightarrow>
          if countSegments a < countSegments source
          then Some \<lparr>shorter = a, shorterCount = countSegments a,
                     currentCount = countSegments source,
                     fixText = [doubleQuote] @ a @ [doubleQuote]\<rparr>
          else None)"
  using assms
  by (simp add: ImportDeclaration_def alternative_def Let_def split: option.splits)

lemma ImportDeclaration_nonstring:
  "sourceValue node = None \<Longrightarrow> ImportDeclaration st node = None"
  by (simp add: ImportDeclaration_def)

lemma ImportDeclaration_report:
  assumes "ImportDeclaration st node = Some r"
  obtains source where "sourceValue node = Some source"
    and "alternative st source = Some (shorter r)"
    and "countSegments (shorter r) < countSegments source"
    and "shorterCount r = countSegments (shorter r)"
    and "currentCount r = countSegments source"
    and "fixText r = [doubleQuote] @ shorter r @ [doubleQuote]"
proof (cases "sourceValue node")
  case None
  with assms show ?thesis
    by (simp add: ImportDeclaration_nonstring)
next
  case (Some source)
  from assms ImportDeclaration_alternative [OF Some, of st]
  obtain a where a: "alternative st source = Some a"
      "countSegments a < countSegments source"
      "r = \<lparr>shorter = a, shorterCount = countSegments a,
            currentCount = countSegments source,
            fixText = [doubleQuote] @ a @ [doubleQuote]\<rparr>"
    by (auto split: option.splits if_splits)
  with Some that show ?thesis by simp
qed

lemma create_projectWorld:
  "create (projectWorld baseUrl paths files) filename defaultOptions =
     Inr (Some (projectState baseUrl paths files filename))"
proof -
  have "path_join [''/'', ''tsconfig.json''] = ''/tsconfig.json''"
    by code_simp
  moreover
  have "path_resolve ''/'' [''/tsconfig.json''] = ''/tsconfig.json''"
    by code_simp
  ultimately show ?thesis
    by (simp add: create_def projectWorld_def projectState_def tsconfigPathOf_def
        defaultOptions_def loadConfigOn_def)
qed

lemma lint_projectWorld:
  "lint (projectWorld baseUrl paths files) filename defaultOptions node =
     Inr (ImportDeclaration (projectState baseUrl paths files filename) node)"
  by (simp add: lint_def create_projectWorld)

section \<open>The shortest alias\<close>

text \<open>
  \<open>findShortestAlias\<close> returns the first of the candidates with the fewest
  segments, and nothing when no entry of the table matches.
\<close>

lemma arg_min_list_le:
  "x \<in> set xs \<Longrightarrow> f (arg_min_list f xs) \<le> (f x :: nat)"
  by (cases "xs = []") (simp_all add: f_arg_min_list_f)

lemma arg_min_list_skip_first:
  "f c < (f a :: nat) \<Longrightarrow> arg_min_list f (a # c # rest) = arg_min_list f (c # rest)"
  using arg_min_list_le [of c "c # rest" f]
  by (simp add: Let_def)

lemma arg_min_list_skip_second:
  "(f a :: nat) \<le> f c \<Longrightarrow> arg_min_list f (a # c # rest) = arg_min_list f (a # rest)"
  by (cases rest) (auto simp: Let_def)

lemma aliasCandidates_Cons:
  "aliasCandidates n ((t, p) # m) =
     (if startsWith n t
      then removeTrailing ''/index'' (p @ slice_from n (length t)) # aliasCandidates n m
      else aliasCandidates n m)"
  by (simp add: aliasCandidates_def)

lemma findShortestAliasLoop_running:
  "fst (findShortestAliasLoop n m (Some a, enat (countSegments a)))
     = Some (arg_min_list countSegments (a # aliasCandidates n m))"
proof (induction m arbitrary: a)
  case Nil
  then show ?case
    by (simp add: aliasCandidates_def)
next
  case (Cons e m)
  obtain t p where e: "e = (t, p)"
    by (cases e)
  show ?case
  proof (cases "startsWith n t")
    case False
    with Cons.IH [of a] show ?thesis
      by (simp add: e aliasCandidates_Cons)
  next
    case True
    define c where "c = removeTrailing ''/index'' (p @ slice_from n (length t))"
    show ?thesis
    proof (cases "countSegments c < countSegments a")
      case True
      with Cons.IH [of c] \<open>startsWith n t\<close> show ?thesis
        by (simp add: e aliasCandidates_Cons c_def [symmetric] arg_min_list_skip_first
            del: arg_min_list.simps)
    next
      case False
      with Cons.IH [of a] \<open>startsWith n t\<close> show ?thesis
        by (simp add: e aliasCandidates_Cons c_def [symmetric] arg_min_list_skip_second
            del: arg_min_list.simps)
    qed
  qed
qed

lemma findShortestAliasLoop_start:
  "fst (findShortestAliasLoop n m (None, \<infinity>))
     = (case aliasCandidates n m of
          [] \<Rightarrow> None
        | c # cs \<Rightarrow> Some (arg_min_list countSegments (c # cs)))"
proof (induction m)
  case Nil
  then show ?case
    by (simp add: aliasCandidates_def)
next
  case (Cons e m)
  obtain t p where e: "e = (t, p)"
    by (cases e)
  show ?case
  proof (cases "startsWith n t")
    case False
    with Cons.IH show ?thesis
      by (simp add: e aliasCandidates_Cons)
  next
    case True
    then show ?thesis
      by (simp add: e aliasCandidates_Cons findShortestAliasLoop_running Let_def
          del: arg_min_list.simps)
  qed
qed

lemma findShortestAlias_first_shortest:
  "findShortestAlias absolutePath baseUrl aliasMap
     = (case aliasCandidates (removeSourceExtension absolutePath) aliasMap of
          [] \<Rightarrow> None
        | c # cs \<Rightarrow> Some (arg_min_list countSegments (c # cs)))"
  by (simp add: findShortestAlias_def findShortestAliasLoop_start)

section \<open>The decision\<close>

text \<open>
  C1. For every analysed import specifier the listener reports a replacement by
  an alternative exactly when an alternative of the other kind exists and has
  strictly fewer segments than the specifier; without an alternative, and with an
  alternative of more or of equally many segments, it reports nothing (Keep).
\<close>

theorem verdict_decision:
  assumes "sourceValue node = Some source"
  shows "(verdictOf (ImportDeclaration st node) = Replace a
            \<longleftrightarrow> alternative st source = Some a \<and> countSegments a < countSegments source)
       \<and> (alternative st source = None \<longrightarrow> verdictOf (ImportDeclaration st node) = Keep)
       \<and> (alternative st source = Some a \<and> countSegments source < countSegments a
            \<longrightarrow> verdictOf (ImportDeclaration st node) = Keep)
       \<and> (alternative st source = Some a \<and> countSegments a = countSegments source
            \<longrightarrow> verdictOf (ImportDeclaration st node) = Keep)"
  by (auto simp: ImportDeclaration_alternative [OF assms] verdictOf_def split: option.splits)

theorem verdict_decision_witness:
  "verdictOf (ImportDeclaration (fixtureState ''/src/features/auth/login.ts'')
       (stringLiteral doubleQuote ''../../utils/helpers'')) = Replace ''@utils/helpers''
   \<and> countSegments ''@utils/helpers'' = 2
   \<and> countSegments ''../../utils/helpers'' = 4
   \<and> alternative (fixtureState ''/src/components/Button.ts'') ''react'' = None
   \<and> verdictOf (ImportDeclaration (fixtureState ''/src/components/Button.ts'')
       (stringLiteral doubleQuote ''react'')) = Keep
   \<and> alternative (fixtureState ''/src/components/App.ts'') ''./Button''
       = Some ''@components/Button''
   \<and> countSegments ''./Button'' < countSegments ''@components/Button''
   \<and> verdictOf (ImportDeclaration (fixtureState ''/src/components/App.ts'')
       (stringLiteral doubleQuote ''./Button'')) = Keep
   \<and> alternative (fixtureState ''/src/components/Button.ts'') ''@/features/auth/login''
       = Some ''../features/auth/login''
   \<and> countSegments ''../features/auth/login'' = countSegments ''@/features/auth/login''
   \<and> verdictOf (ImportDeclaration (fixtureState ''/src/components/Button.ts'')
       (stringLiteral doubleQuote ''@/features/auth/login'')) = Keep"
proof -
  let ?login = "fixtureState ''/src/features/auth/login.ts''"
  let ?button = "fixtureState ''/src/components/Button.ts''"
  let ?app = "fixtureState ''/src/components/App.ts''"
  have v: "sourceValue (stringLiteral doubleQuote s) = Some s" for s
    by (simp add: stringLiteral_def)
  have a1: "alternative ?login ''../../utils/helpers'' = Some ''@utils/helpers''"
    by code_simp
  have c1: "countSegments ''@utils/helpers'' = 2" "countSegments ''../../utils/helpers'' = 4"
    by code_simp+
  have a2: "alternative ?button ''react'' = None"
    by code_simp
  have a3: "alternative ?app ''./Button'' = Some ''@components/Button''"
    by code_simp
  have c3: "countSegments ''./Button'' < countSegments ''@components/Button''"
    by code_simp
  have a4: "alternative ?button ''@/features/auth/login'' = Some ''../features/auth/login''"
    by code_simp
  have c4: "countSegments ''../features/auth/login'' = countSegments ''@/features/auth/login''"
    by code_simp
  note d1 = verdict_decision [OF v [of "''../../utils/helpers''"],
      where st = ?login and a = "''@utils/helpers''"]
  note d2 = verdict_decision [OF v [of "''react''"],
      where st = ?button and a = "''x''"]
  note d3 = verdict_decision [OF v [of "''./Button''"],
      where st = ?app and a = "''@components/Button''"]
  note d4 = verdict_decision [OF v [of "''@/features/auth/login''"],
      where st = ?button and a = "''../features/auth/login''"]
  from d1 a1 c1
  have r1: "verdictOf (ImportDeclaration ?login
       (stringLiteral doubleQuote ''../../utils/helpers'')) = Replace ''@utils/helpers''"
    by simp
  from d2 a2
  have r2: "verdictOf (ImportDeclaration ?button (stringLiteral doubleQuote ''react'')) = Keep"
    by blast
  from d3 a3 c3
  have r3: "verdictOf (ImportDeclaration ?app (stringLiteral doubleQuote ''./Button'')) = Keep"
    by blast
  from d4 a4 c4
  have r4: "verdictOf (ImportDeclaration ?button
       (stringLiteral doubleQuote ''@/features/auth/login'')) = Keep"
    by blast
  from r1 c1 a2 r2 a3 c3 r3 a4 c4 r4 show ?thesis
    by (intro conjI)
qed

section \<open>Alias matching\<close>

text \<open>
  C3. In the resolution of a relative specifier, an entry of the alias table
  should give a candidate only when its target directory is a prefix of the
  normalized path at a segment boundary: the target \<open>/base/utils\<close> should give
  none for \<open>/base/utilsExtra/helpers\<close>. The code tests \<open>startsWith\<close> on the
  characters: in a project with base directory \<open>/base\<close> and the alias
  \<open>@utils/*\<close> for \<open>./utils/*\<close>, the import \<open>../utilsExtra/helpers\<close> written in
  \<open>/base/app/main.ts\<close> is reported with the replacement \<open>@utilsExtra/helpers\<close>,
  a specifier that the alias resolver does not resolve.
\<close>

theorem findShortestAlias_ignores_segment_boundary:
  "buildAliasMap ''/'' ''/base'' utilsPaths = [(''/base/utils'', ''@utils'')]
   \<and> findShortestAlias ''/base/utilsExtra/helpers'' ''/base'' [(''/base/utils'', ''@utils'')]
       = Some ''@utilsExtra/helpers''
   \<and> lint (projectWorld ''/base'' utilsPaths [''/base/utilsExtra/helpers.ts''])
         ''/base/app/main.ts'' defaultOptions (stringLiteral doubleQuote ''../utilsExtra/helpers'')
       = Inr (Some \<lparr>shorter = ''@utilsExtra/helpers'', shorterCount = 2, currentCount = 3,
               fixText = doubleQuote # ''@utilsExtra/helpers'' @ [doubleQuote]\<rparr>)
   \<and> createMatchPath ''/'' (diskWith [''/base/utilsExtra/helpers.ts'']) ''/base'' utilsPaths
         ''@utilsExtra/helpers'' extensions = None"
proof -
  have "buildAliasMap ''/'' ''/base'' utilsPaths = [(''/base/utils'', ''@utils'')]"
    by code_simp
  moreover
  have "findShortestAlias ''/base/utilsExtra/helpers'' ''/base'' [(''/base/utils'', ''@utils'')]
       = Some ''@utilsExtra/helpers''"
    by code_simp
  moreover
  have "lint (projectWorld ''/base'' utilsPaths [''/base/utilsExtra/helpers.ts''])
         ''/base/app/main.ts'' defaultOptions (stringLiteral doubleQuote ''../utilsExtra/helpers'')
       = Inr (Some \<lparr>shorter = ''@utilsExtra/helpers'', shorterCount = 2, currentCount = 3,
               fixText = doubleQuote # ''@utilsExtra/helpers'' @ [doubleQuote]\<rparr>)"
    by code_simp
  moreover
  have "createMatchPath ''/'' (diskWith [''/base/utilsExtra/helpers.ts'']) ''/base'' utilsPaths
         ''@utilsExtra/helpers'' extensions = None"
    by code_simp
  ultimately show ?thesis
    by (intro conjI)
qed

section \<open>The alias table\<close>

lemma map_of_mapSet: "map_of (mapSet m k v) = (map_of m)(k \<mapsto> v)"
  by (induction m k v rule: mapSet.induct) auto

lemma keys_mapSet:
  "map fst (mapSet m k v) = (if k \<in> fst ` set m then map fst m else map fst m @ [k])"
  by (induction m k v rule: mapSet.induct) (auto simp: image_iff)

lemma distinct_mapSet: "distinct (map fst m) \<Longrightarrow> distinct (map fst (mapSet m k v))"
  by (simp add: keys_mapSet)

lemma key_set_mapSet: "fst ` set (mapSet m k v) = insert k (fst ` set m)"
proof -
  have "set (map fst (mapSet m k v)) = insert k (set (map fst m))"
    by (auto simp: keys_mapSet)
  then show ?thesis by simp
qed

lemma buildAliasTargets_fold:
  "buildAliasTargets cwd baseUrl alias targets m =
     foldl (\<lambda>m (k, v). mapSet m k v) m
       (map (\<lambda>target. (path_resolve cwd [baseUrl, removeTrailing ''/*'' target],
                       removeTrailing ''/*'' alias)) targets)"
  by (induction targets arbitrary: m) (simp_all add: Let_def)

lemma buildAliasEntries_fold:
  "buildAliasEntries cwd baseUrl paths m =
     foldl (\<lambda>m (k, v). mapSet m k v) m (aliasPairs cwd baseUrl paths)"
  by (induction paths arbitrary: m) (auto simp: aliasPairs_def buildAliasTargets_fold)

lemma fold_mapSet:
  "distinct (map fst m) \<Longrightarrow>
     distinct (map fst (foldl (\<lambda>m (k, v). mapSet m k v) m ps))
     \<and> fst ` set (foldl (\<lambda>m (k, v). mapSet m k v) m ps) = fst ` set m \<union> fst ` set ps
     \<and> map_of (foldl (\<lambda>m (k, v). mapSet m k v) m ps) = map_of m ++ map_of (rev ps)"
proof (induction ps arbitrary: m)
  case Nil
  then show ?case by simp
next
  case (Cons p ps)
  obtain k v where p: "p = (k, v)" by (cases p)
  have d: "distinct (map fst (mapSet m k v))"
    using Cons.prems by (rule distinct_mapSet)
  show ?case
    using Cons.IH [OF d] key_set_mapSet [of m k v]
    by (auto simp: p map_of_mapSet map_add_def fun_eq_iff split: option.splits)
qed

text \<open>
  The table holds one entry for each distinct absolute target directory of the
  configuration: every target of every alias is a key, no key occurs twice, and
  the alias kept for a target is the one of the last pair of the configuration
  with that target.
\<close>

lemma buildAliasMap_one_entry_per_target:
  "distinct (map fst (buildAliasMap cwd baseUrl paths))
   \<and> fst ` set (buildAliasMap cwd baseUrl paths) = fst ` set (aliasPairs cwd baseUrl paths)
   \<and> map_of (buildAliasMap cwd baseUrl paths) = map_of (rev (aliasPairs cwd baseUrl paths))"
  using fold_mapSet [of "[]" "aliasPairs cwd baseUrl paths"]
  by (simp add: buildAliasMap_def buildAliasEntries_fold)

text \<open>
  C4. The builder should emit one entry for each pair of an alias and a target
  and drop none: two aliases for one directory should both stay in the table
  and both be tried when a relative specifier is resolved. The table is a \<open>Map\<close>
  keyed by the target directory, so a second alias for a directory takes the
  place of the first. With the aliases \<open>@c/*\<close> and \<open>@very/long/alias/*\<close> for
  \<open>./components/*\<close>, the configuration has two pairs and the table one entry,
  \<open>@very/long/alias\<close>. The import \<open>../components/Button\<close> written in
  \<open>/src/utils/other.ts\<close> has three segments and is kept, although
  \<open>@c/Button\<close> has two and resolves to the same file; on the two pairs of the
  configuration \<open>findShortestAlias\<close> returns it.
\<close>

theorem buildAliasMap_loses_shorter_alias:
  "aliasPairs ''/'' ''/src'' sharedTargetPaths
     = [(''/src/components'', ''@c''), (''/src/components'', ''@very/long/alias'')]
   \<and> buildAliasMap ''/'' ''/src'' sharedTargetPaths
     = [(''/src/components'', ''@very/long/alias'')]
   \<and> lint (projectWorld ''/src'' sharedTargetPaths [''/src/components/Button.ts''])
         ''/src/utils/other.ts'' defaultOptions (stringLiteral doubleQuote ''../components/Button'')
     = Inr None
   \<and> countSegments ''../components/Button'' = 3
   \<and> countSegments ''@c/Button'' = 2
   \<and> path_resolve ''/'' [''/src/utils'', ''../components/Button''] = ''/src/components/Button''
   \<and> createMatchPath ''/'' (diskWith [''/src/components/Button.ts'']) ''/src'' sharedTargetPaths
         ''@c/Button'' extensions
     = Some ''/src/components/Button''
   \<and> findShortestAlias ''/src/components/Button'' ''/src''
         (aliasPairs ''/'' ''/src'' sharedTargetPaths)
     = Some ''@c/Button''"
proof -
  have "aliasPairs ''/'' ''/src'' sharedTargetPaths
     = [(''/src/components'', ''@c''), (''/src/components'', ''@very/long/alias'')]"
    by code_simp
  moreover
  have "buildAliasMap ''/'' ''/src'' sharedTargetPaths
     = [(''/src/components'', ''@very/long/alias'')]"
    by code_simp
  moreover
  have "lint (projectWorld ''/src'' sharedTargetPaths [''/src/components/Button.ts''])
         ''/src/utils/other.ts'' defaultOptions (stringLiteral doubleQuote ''../components/Button'')
     = Inr None"
    by code_simp
  moreover
  have "countSegments ''../components/Button'' = 3"
    by code_simp
  moreover
  have "countSegments ''@c/Button'' = 2"
    by code_simp
  moreover
  have "path_resolve ''/'' [''/src/utils'', ''../components/Button''] = ''/src/components/Button''"
    by code_simp
  moreover
  have "createMatchPath ''/'' (diskWith [''/src/components/Button.ts'']) ''/src'' sharedTargetPaths
         ''@c/Button'' extensions
     = Some ''/src/components/Button''"
    by code_simp
  moreover
  have "findShortestAlias ''/src/components/Button'' ''/src''
         (aliasPairs ''/'' ''/src'' sharedTargetPaths)
     = Some ''@c/Button''"
    by code_simp
  ultimately show ?thesis
    by (intro conjI)
qed

section \<open>Ties\<close>

text \<open>
  The schema admits the property \<open>tsconfigPath\<close> alone, and with any options
  the listener reports nothing when the specifier and its alternative have
  equally many segments.
\<close>

lemma schemaAccepts_only_tsconfigPath:
  assumes "schemaAccepts obj" and "(key, v) \<in> set obj"
  shows "key = ''tsconfigPath'' \<and> (\<exists>p. v = JsonString p)"
proof -
  from assms have "key = ''tsconfigPath'' \<and> (case v of JsonString _ \<Rightarrow> True | JsonOther \<Rightarrow> False)"
    by (auto simp: schemaAccepts_def list_all_iff)
  then show ?thesis
    by (cases v) simp_all
qed

lemma tie_keeps_original:
  assumes "create w filename opts = Inr (Some st)"
    and "sourceValue node = Some source"
    and "alternative st source = Some a"
    and "countSegments a = countSegments source"
  shows "lint w filename opts node = Inr None"
  using assms by (simp add: lint_def ImportDeclaration_alternative)

text \<open>
  C5. A tie-break policy (keep-original, prefer-alias, prefer-relative) should
  be part of the configuration, and on equal counts the two \<open>prefer\<close> values
  should force a replacement. The tests of the rule pass the option
  \<open>preferOnTie\<close>, with the values \<open>alias\<close>, \<open>relative\<close> and \<open>keep\<close>, beside
  \<open>tsconfigPath\<close>. The schema of the rule rejects such options, under the names
  of the tests and under those of the policy, and the listener, which reads
  \<open>tsconfigPath\<close> alone, keeps both forms of a tie: in the project of the tests,
  \<open>@/features/auth/login\<close> and \<open>../features/auth/login\<close> written in
  \<open>/src/components/Button.ts\<close> have four segments each and neither is reported.
\<close>

theorem no_tie_break_policy:
  "schemaAccepts [(''tsconfigPath'', JsonString ''/tsconfig.json'')]
   \<and> \<not> schemaAccepts [(''tsconfigPath'', JsonString ''/tsconfig.json''),
                        (''preferOnTie'', JsonString ''alias'')]
   \<and> \<not> schemaAccepts [(''tsconfigPath'', JsonString ''/tsconfig.json''),
                        (''preferOnTie'', JsonString ''relative'')]
   \<and> \<not> schemaAccepts [(''tsconfigPath'', JsonString ''/tsconfig.json''),
                        (''preferOnTie'', JsonString ''keep'')]
   \<and> \<not> schemaAccepts [(''preferOnTie'', JsonString ''prefer-alias'')]
   \<and> \<not> schemaAccepts [(''preferOnTie'', JsonString ''prefer-relative'')]
   \<and> alternative (fixtureState ''/src/components/Button.ts'') ''@/features/auth/login''
       = Some ''../features/auth/login''
   \<and> alternative (fixtureState ''/src/components/Button.ts'') ''../features/auth/login''
       = Some ''@/features/auth/login''
   \<and> countSegments ''../features/auth/login'' = 4
   \<and> countSegments ''@/features/auth/login'' = 4
   \<and> lint fixtureWorld ''/src/components/Button.ts'' \<lparr>tsconfigPath = Some ''/tsconfig.json''\<rparr>
         (stringLiteral doubleQuote ''@/features/auth/login'') = Inr None
   \<and> lint fixtureWorld ''/src/components/Button.ts'' \<lparr>tsconfigPath = Some ''/tsconfig.json''\<rparr>
         (stringLiteral doubleQuote ''../features/auth/login'') = Inr None"
proof -
  have "schemaAccepts [(''tsconfigPath'', JsonString ''/tsconfig.json'')]"
    by code_simp
  moreover
  have "\<not> schemaAccepts [(''tsconfigPath'', JsonString ''/tsconfig.json''),
                        (''preferOnTie'', JsonString ''alias'')]"
    by code_simp
  moreover
  have "\<not> schemaAccepts [(''tsconfigPath'', JsonString ''/tsconfig.json''),
                        (''preferOnTie'', JsonString ''relative'')]"
    by code_simp
  moreover
  have "\<not> schemaAccepts [(''tsconfigPath'', JsonString ''/tsconfig.json''),
                        (''preferOnTie'', JsonString ''keep'')]"
    by code_simp
  moreover
  have "\<not> schemaAccepts [(''preferOnTie'', JsonString ''prefer-alias'')]"
    by code_simp
  moreover
  have "\<not> schemaAccepts [(''preferOnTie'', JsonString ''prefer-relative'')]"
    by code_simp
  moreover
  have "alternative (fixtureState ''/src/components/Button.ts'') ''@/features/auth/login''
       = Some ''../features/auth/login''"
    by code_simp
  moreover
  have "alternative (fixtureState ''/src/components/Button.ts'') ''../features/auth/login''
       = Some ''@/features/auth/login''"
    by code_simp
  moreover
  have "countSegments ''../features/auth/login'' = 4"
    by code_simp
  moreover
  have "countSegments ''@/features/auth/login'' = 4"
    by code_simp
  moreover
  have "lint fixtureWorld ''/src/components/Button.ts'' \<lparr>tsconfigPath = Some ''/tsconfig.json''\<rparr>
         (stringLiteral doubleQuote ''@/features/auth/login'') = Inr None"
    by code_simp
  moreover
  have "lint fixtureWorld ''/src/components/Button.ts'' \<lparr>tsconfigPath = Some ''/tsconfig.json''\<rparr>
         (stringLiteral doubleQuote ''../features/auth/login'') = Inr None"
    by code_simp
  ultimately show ?thesis
    by (intro conjI)
qed

section \<open>The file system\<close>

text \<open>
  C6 (as stated). The resolver should be a pure function of the file directory,
  the specifier and the alias table, with the extension list never used to test
  what is on disk. The listener passes the extension list to \<open>matchPath\<close>, which
  tries each candidate on disk: the import \<open>@/components/Button\<close> written in
  \<open>/src/components/App.ts\<close> is reported when \<open>/src/components/Button.ts\<close>
  exists and is not when the disk is empty, the configuration being the same.
\<close>

theorem aliased_specifier_reads_disk:
  "lint (projectWorld ''/src'' fixturePaths [''/src/components/Button.ts''])
       ''/src/components/App.ts'' defaultOptions (stringLiteral doubleQuote ''@/components/Button'')
     = Inr (Some \<lparr>shorter = ''./Button'', shorterCount = 1, currentCount = 3,
             fixText = doubleQuote # ''./Button'' @ [doubleQuote]\<rparr>)
   \<and> lint (projectWorld ''/src'' fixturePaths [])
       ''/src/components/App.ts'' defaultOptions (stringLiteral doubleQuote ''@/components/Button'')
     = Inr None"
proof -
  have "lint (projectWorld ''/src'' fixturePaths [''/src/components/Button.ts''])
       ''/src/components/App.ts'' defaultOptions (stringLiteral doubleQuote ''@/components/Button'')
     = Inr (Some \<lparr>shorter = ''./Button'', shorterCount = 1, currentCount = 3,
             fixText = doubleQuote # ''./Button'' @ [doubleQuote]\<rparr>)"
    by code_simp
  moreover
  have "lint (projectWorld ''/src'' fixturePaths [])
       ''/src/components/App.ts'' defaultOptions (stringLiteral doubleQuote ''@/components/Button'')
     = Inr None"
    by code_simp
  ultimately show ?thesis
    by (intro conjI)
qed

text \<open>
  C6 (amended). For a relative specifier the result of the rule does not depend
  on the file system: two runs that differ only in what is on disk report the
  same. (A specifier that is not relative is resolved by \<open>matchPath\<close>, which
  looks for each candidate path on disk.)
\<close>

theorem relative_specifier_ignores_disk:
  assumes "sourceValue node = Some source" and "startsWith source ''.''"
  shows "lint (w\<lparr>disk := d1\<rparr>) filename opts node = lint (w\<lparr>disk := d2\<rparr>) filename opts node"
proof -
  have t: "tsconfigPathOf (w\<lparr>disk := d\<rparr>) opts = tsconfigPathOf w opts" for d
    by (simp add: tsconfigPathOf_def split: option.splits)
  show ?thesis
  proof (cases "loadConfig w (tsconfigPathOf w opts)")
    case (Inl e)
    then show ?thesis
      by (simp add: lint_def create_def t)
  next
    case (Inr result)
    show ?thesis
    proof (cases result)
      case ConfigFailed
      with Inr show ?thesis
        by (simp add: lint_def create_def t)
    next
      case (ConfigSuccess absoluteBaseUrl paths)
      with Inr assms show ?thesis
        by (simp add: lint_def create_def t ImportDeclaration_def)
    qed
  qed
qed

theorem relative_specifier_ignores_disk_witness:
  "startsWith ''../../utils/helpers'' ''.''
   \<and> lint (fixtureWorld\<lparr>disk := diskWith fixtureFiles\<rparr>) ''/src/features/auth/login.ts''
         defaultOptions (stringLiteral doubleQuote ''../../utils/helpers'')
     = lint (fixtureWorld\<lparr>disk := diskWith []\<rparr>) ''/src/features/auth/login.ts''
         defaultOptions (stringLiteral doubleQuote ''../../utils/helpers'')
   \<and> lint (fixtureWorld\<lparr>disk := diskWith []\<rparr>) ''/src/features/auth/login.ts''
         defaultOptions (stringLiteral doubleQuote ''../../utils/helpers'')
     = Inr (Some \<lparr>shorter = ''@utils/helpers'', shorterCount = 2, currentCount = 4,
             fixText = doubleQuote # ''@utils/helpers'' @ [doubleQuote]\<rparr>)"
proof -
  have v: "sourceValue (stringLiteral doubleQuote ''../../utils/helpers'')
     = Some ''../../utils/helpers''"
    by (simp add: stringLiteral_def)
  have r: "startsWith ''../../utils/helpers'' ''.''"
    by code_simp
  have e: "lint (fixtureWorld\<lparr>disk := diskWith []\<rparr>) ''/src/features/auth/login.ts''
         defaultOptions (stringLiteral doubleQuote ''../../utils/helpers'')
     = Inr (Some \<lparr>shorter = ''@utils/helpers'', shorterCount = 2, currentCount = 4,
             fixText = doubleQuote # ''@utils/helpers'' @ [doubleQuote]\<rparr>)"
    by code_simp
  from relative_specifier_ignores_disk [OF v r, where w = fixtureWorld
      and ?d1.0 = "diskWith fixtureFiles" and ?d2.0 = "diskWith []"
      and filename = "''/src/features/auth/login.ts''" and opts = defaultOptions] r e
  show ?thesis
    by (intro conjI)
qed

section \<open>Rewriting again\<close>

text \<open>
  C7 (as stated). After a replacement, the analysis of the alternative from the
  same directory with the same table should keep it. In the project of the tests,
  \<open>../components/Button\<close> written in \<open>/src/components/App.ts\<close> is replaced by
  \<open>@components/Button\<close>, which is replaced in turn by \<open>./Button\<close>.
\<close>

theorem replacement_is_replaced_again:
  "lint fixtureWorld ''/src/components/App.ts'' defaultOptions
       (stringLiteral doubleQuote ''../components/Button'')
     = Inr (Some \<lparr>shorter = ''@components/Button'', shorterCount = 2, currentCount = 3,
             fixText = doubleQuote # ''@components/Button'' @ [doubleQuote]\<rparr>)
   \<and> lint fixtureWorld ''/src/components/App.ts'' defaultOptions
       (stringLiteral doubleQuote ''@components/Button'')
     = Inr (Some \<lparr>shorter = ''./Button'', shorterCount = 1, currentCount = 2,
             fixText = doubleQuote # ''./Button'' @ [doubleQuote]\<rparr>)"
proof -
  have "lint fixtureWorld ''/src/components/App.ts'' defaultOptions
       (stringLiteral doubleQuote ''../components/Button'')
     = Inr (Some \<lparr>shorter = ''@components/Button'', shorterCount = 2, currentCount = 3,
             fixText = doubleQuote # ''@components/Button'' @ [doubleQuote]\<rparr>)"
    by code_simp
  moreover
  have "lint fixtureWorld ''/src/components/App.ts'' defaultOptions
       (stringLiteral doubleQuote ''@components/Button'')
     = Inr (Some \<lparr>shorter = ''./Button'', shorterCount = 1, currentCount = 2,
             fixText = doubleQuote # ''./Button'' @ [doubleQuote]\<rparr>)"
    by code_simp
  ultimately show ?thesis
    by (intro conjI)
qed

text \<open>
  C7 (amended). Every replacement has strictly fewer segments than the specifier
  it replaces. So the analysis of the alternative, from the same directory with
  the same table, either keeps it or replaces it by a form with fewer segments
  still, never by the original: no two forms oscillate.
\<close>

theorem replacement_has_fewer_segments:
  assumes "sourceValue node = Some source"
    and "verdictOf (ImportDeclaration st node) = Replace a"
    and "sourceValue node' = Some a"
  shows "countSegments a < countSegments source
       \<and> (verdictOf (ImportDeclaration st node') = Keep
          \<or> (\<exists>b. verdictOf (ImportDeclaration st node') = Replace b
                 \<and> countSegments b < countSegments a \<and> b \<noteq> source))"
proof -
  have shorter: "countSegments y < countSegments x"
    if "sourceValue n = Some x" and "verdictOf (ImportDeclaration st n) = Replace y" for n x y
    using that
    by (auto simp: ImportDeclaration_alternative verdictOf_def split: option.splits if_splits)
  have first: "countSegments a < countSegments source"
    using assms(1,2) by (rule shorter)
  show ?thesis
  proof (cases "verdictOf (ImportDeclaration st node')")
    case Keep
    with first show ?thesis by simp
  next
    case (Replace b)
    with assms(3) have "countSegments b < countSegments a"
      by (simp add: shorter)
    with first Replace show ?thesis by auto
  qed
qed

theorem replacement_has_fewer_segments_witness:
  "verdictOf (ImportDeclaration (fixtureState ''/src/components/App.ts'')
       (stringLiteral doubleQuote ''../components/Button'')) = Replace ''@components/Button''
   \<and> countSegments ''@components/Button'' < countSegments ''../components/Button''
   \<and> verdictOf (ImportDeclaration (fixtureState ''/src/components/App.ts'')
       (stringLiteral doubleQuote ''@components/Button'')) \<noteq> Replace ''../components/Button''"
proof -
  have v: "sourceValue (stringLiteral doubleQuote s) = Some s" for s
    by (simp add: stringLiteral_def)
  have r: "verdictOf (ImportDeclaration (fixtureState ''/src/components/App.ts'')
       (stringLiteral doubleQuote ''../components/Button'')) = Replace ''@components/Button''"
    by code_simp
  from replacement_has_fewer_segments [OF v r v] r show ?thesis
    by auto
qed

section \<open>Without a configuration\<close>

text \<open>
  What the rule does follows the call of \<open>loadConfig\<close>: an exception it throws
  leaves the rule; on the result \<open>failed\<close> no listener is installed and nothing
  is reported; on a configuration without paths nothing is reported for a
  relative specifier.
\<close>

lemma lint_by_configuration:
  "(loadConfig w (tsconfigPathOf w opts) = Inl e
      \<longrightarrow> create w filename opts = Inl e \<and> lint w filename opts node = Inl e)
   \<and> (loadConfig w (tsconfigPathOf w opts) = Inr ConfigFailed
      \<longrightarrow> create w filename opts = Inr None \<and> lint w filename opts node = Inr None)
   \<and> (loadConfig w (tsconfigPathOf w opts) = Inr (ConfigSuccess baseUrl [])
        \<and> sourceValue node = Some source \<and> startsWith source ''.''
      \<longrightarrow> lint w filename opts node = Inr None)"
  by (simp add: lint_def create_def ImportDeclaration_def buildAliasMap_def
      findShortestAlias_def)

text \<open>
  C8. When the configuration cannot be loaded or has no path mappings, the rule
  should do nothing: no diagnostic for any file and specifier, and no exception
  that reaches the surrounding tool. \<open>create\<close> calls \<open>loadConfig\<close> outside of any
  \<^verbatim>\<open>try\<close>, and \<open>loadConfig\<close> throws on a path that does not exist: in a
  project without \<open>tsconfig.json\<close> the default options make the rule throw, and
  so does the option \<open>tsconfigPath\<close> with a missing file in the project of the
  tests. Only when \<open>loadConfig\<close> returns \<open>failed\<close>, as from a directory with no
  \<open>tsconfig.json\<close> above it, is nothing reported. With a configuration that loads
  and has no paths, \<open>matchPath\<close> still resolves a specifier against the base
  directory: \<open>components/Button\<close> written in \<open>/src/components/App.ts\<close> is
  reported with the replacement \<open>./Button\<close>.
\<close>

theorem loadConfig_exception_escapes:
  "lint (bareWorld fixtureFiles) ''/src/components/App.ts'' defaultOptions
       (stringLiteral doubleQuote ''@/components/Button'')
     = Inl (ENOENT ''/tsconfig.json'')
   \<and> lint fixtureWorld ''/src/components/App.ts'' \<lparr>tsconfigPath = Some ''/missing.json''\<rparr>
       (stringLiteral doubleQuote ''@/components/Button'')
     = Inl (ENOENT ''/missing.json'')
   \<and> lint (bareWorld fixtureFiles) ''/src/components/App.ts'' \<lparr>tsconfigPath = Some ''/src''\<rparr>
       (stringLiteral doubleQuote ''@/components/Button'')
     = Inr None
   \<and> lint (projectWorld ''/src'' [] fixtureFiles) ''/src/components/App.ts'' defaultOptions
       (stringLiteral doubleQuote ''components/Button'')
     = Inr (Some \<lparr>shorter = ''./Button'', shorterCount = 1, currentCount = 2,
             fixText = doubleQuote # ''./Button'' @ [doubleQuote]\<rparr>)"
proof -
  have "lint (bareWorld fixtureFiles) ''/src/components/App.ts'' defaultOptions
       (stringLiteral doubleQuote ''@/components/Button'')
     = Inl (ENOENT ''/tsconfig.json'')"
    by code_simp
  moreover
  have "lint fixtureWorld ''/src/components/App.ts'' \<lparr>tsconfigPath = Some ''/missing.json''\<rparr>
       (stringLiteral doubleQuote ''@/components/Button'')
     = Inl (ENOENT ''/missing.json'')"
    by code_simp
  moreover
  have "lint (bareWorld fixtureFiles) ''/src/components/App.ts'' \<lparr>tsconfigPath = Some ''/src''\<rparr>
       (stringLiteral doubleQuote ''@/components/Button'')
     = Inr None"
    by code_simp
  moreover
  have "lint (projectWorld ''/src'' [] fixtureFiles) ''/src/components/App.ts'' defaultOptions
       (stringLiteral doubleQuote ''components/Button'')
     = Inr (Some \<lparr>shorter = ''./Button'', shorterCount = 1, currentCount = 2,
             fixText = doubleQuote # ''./Button'' @ [doubleQuote]\<rparr>)"
    by code_simp
  ultimately show ?thesis
    by (intro conjI)
qed

section \<open>The least segment count\<close>

text \<open>
  C9 (as stated). Every specifier the engine handles, the alternatives it
  computes included, should have at least one segment. For an aliased import
  that resolves to the index file of the importing directory the alternative is
  \<open>./\<close>, which has no segment: \<open>@/components\<close> written in
  \<open>/src/components/App.ts\<close> is reported with the replacement \<open>./\<close> and the
  count 0.
\<close>

theorem own_index_has_no_segment:
  "toRelativeImport ''/'' ''/src/components'' ''/src/components'' = ''./''
   \<and> countSegments ''./'' = 0
   \<and> lint fixtureWorld ''/src/components/App.ts'' defaultOptions
         (stringLiteral doubleQuote ''@/components'')
       = Inr (Some \<lparr>shorter = ''./'', shorterCount = 0, currentCount = 2,
               fixText = doubleQuote # ''./'' @ [doubleQuote]\<rparr>)"
proof -
  have "toRelativeImport ''/'' ''/src/components'' ''/src/components'' = ''./''"
    by code_simp
  moreover
  have "countSegments ''./'' = 0"
    by code_simp
  moreover
  have "lint fixtureWorld ''/src/components/App.ts'' defaultOptions
         (stringLiteral doubleQuote ''@/components'')
       = Inr (Some \<lparr>shorter = ''./'', shorterCount = 0, currentCount = 2,
               fixText = doubleQuote # ''./'' @ [doubleQuote]\<rparr>)"
    by code_simp
  ultimately show ?thesis
    by (intro conjI)
qed

text \<open>
  C9 (amended). A specifier has at least one segment exactly when one of its
  \<open>/\<close>-separated parts is neither empty nor \<open>.\<close>; so has every specifier with a
  character other than \<open>.\<close> and \<open>/\<close>, and every specifier for which the
  listener reports a replacement.
\<close>

theorem countSegments_positive:
  "(1 \<le> countSegments s \<longleftrightarrow> (\<exists>p \<in> set (split s (CHR ''/'')). p \<noteq> [] \<and> p \<noteq> ''.''))
   \<and> ((\<exists>c \<in> set s. c \<noteq> CHR ''.'' \<and> c \<noteq> CHR ''/'') \<longrightarrow> 1 \<le> countSegments s)
   \<and> (sourceValue node = Some source \<and> ImportDeclaration st node = Some r
        \<longrightarrow> 1 \<le> countSegments source)"
proof -
  have iff: "1 \<le> countSegments s \<longleftrightarrow> (\<exists>p \<in> set (split s (CHR ''/'')). p \<noteq> [] \<and> p \<noteq> ''.'')"
  proof -
    have "1 \<le> countSegments s \<longleftrightarrow> [p \<leftarrow> split s (CHR ''/''). p \<noteq> [] \<and> p \<noteq> ''.''] \<noteq> []"
      by (simp add: countSegments_split Suc_le_eq)
    then show ?thesis
      by (simp add: filter_empty_conv)
  qed
  have char: "1 \<le> countSegments s" if "\<exists>c \<in> set s. c \<noteq> CHR ''.'' \<and> c \<noteq> CHR ''/''"
  proof -
    from that obtain c where c: "c \<in> set s" "c \<noteq> CHR ''.''" "c \<noteq> CHR ''/''"
      by blast
    from split_covers [OF c(1) c(3)] obtain p
      where p: "p \<in> set (split s (CHR ''/''))" "c \<in> set p"
      by blast
    from p(2) c(2) have "p \<noteq> []" "p \<noteq> ''.''"
      by auto
    with p(1) iff show ?thesis
      by blast
  qed
  have reported: "1 \<le> countSegments source"
    if "sourceValue node = Some source" and "ImportDeclaration st node = Some r"
    using that(2) by (rule ImportDeclaration_report) (use that(1) in simp)
  from iff char reported show ?thesis
    by blast
qed

theorem countSegments_positive_witness:
  "(\<exists>c \<in> set ''@utils''. c \<noteq> CHR ''.'' \<and> c \<noteq> CHR ''/'')
   \<and> 1 \<le> countSegments ''@utils''
   \<and> 1 \<le> countSegments ''..''
   \<and> ImportDeclaration (fixtureState ''/src/components/App.ts'')
       (stringLiteral doubleQuote ''@/components'')
     = Some \<lparr>shorter = ''./'', shorterCount = 0, currentCount = 2,
             fixText = doubleQuote # ''./'' @ [doubleQuote]\<rparr>
   \<and> 1 \<le> countSegments ''@/components''"
proof -
  have c: "\<exists>c \<in> set ''@utils''. c \<noteq> CHR ''.'' \<and> c \<noteq> CHR ''/''"
    by simp
  have p: "\<exists>p \<in> set (split ''..'' (CHR ''/'')). p \<noteq> [] \<and> p \<noteq> ''.''"
    by simp
  have e: "ImportDeclaration (fixtureState ''/src/components/App.ts'')
       (stringLiteral doubleQuote ''@/components'')
     = Some \<lparr>shorter = ''./'', shorterCount = 0, currentCount = 2,
             fixText = doubleQuote # ''./'' @ [doubleQuote]\<rparr>"
    by code_simp
  from countSegments_positive [of "''@utils''"] c
  have "1 \<le> countSegments ''@utils''"
    by blast
  moreover
  from countSegments_positive [of "''..''"] p
  have "1 \<le> countSegments ''..''"
    by blast
  moreover
  from countSegments_positive [where node = "stringLiteral doubleQuote ''@/components''"
      and source = "''@/components''" and st = "fixtureState ''/src/components/App.ts''"] e
  have "1 \<le> countSegments ''@/components''"
    by (simp add: stringLiteral_def)
  ultimately show ?thesis
    using c e by (intro conjI)
qed

section \<open>The fix\<close>

text \<open>
  C10 (as stated). The replacement text should be quoted with the quote
  character of the original import string. The fix always writes double quotes:
  for \<open>'../../utils/helpers'\<close>, between single quotes, it writes
  \<open>"@utils/helpers"\<close>.
\<close>

theorem fix_changes_single_quotes:
  "sourceRaw (stringLiteral singleQuote ''../../utils/helpers'')
     = singleQuote # ''../../utils/helpers'' @ [singleQuote]
   \<and> lint fixtureWorld ''/src/features/auth/login.ts'' defaultOptions
         (stringLiteral singleQuote ''../../utils/helpers'')
       = Inr (Some \<lparr>shorter = ''@utils/helpers'', shorterCount = 2, currentCount = 4,
               fixText = doubleQuote # ''@utils/helpers'' @ [doubleQuote]\<rparr>)
   \<and> singleQuote \<noteq> doubleQuote"
proof -
  have "sourceRaw (stringLiteral singleQuote ''../../utils/helpers'')
     = singleQuote # ''../../utils/helpers'' @ [singleQuote]"
    by (simp add: stringLiteral_def)
  moreover
  have "lint fixtureWorld ''/src/features/auth/login.ts'' defaultOptions
         (stringLiteral singleQuote ''../../utils/helpers'')
       = Inr (Some \<lparr>shorter = ''@utils/helpers'', shorterCount = 2, currentCount = 4,
               fixText = doubleQuote # ''@utils/helpers'' @ [doubleQuote]\<rparr>)"
    by code_simp
  moreover
  have "singleQuote \<noteq> doubleQuote"
    by (simp add: singleQuote_def doubleQuote_def)
  ultimately show ?thesis
    by (intro conjI)
qed

text \<open>
  C10 (amended). On every report the fix replaces the literal of the import by
  the text of the alternative between double quotes, whatever the quote
  character of the original literal.
\<close>

theorem fix_is_double_quoted:
  assumes "ImportDeclaration st node = Some r"
  shows "fixText r = [doubleQuote] @ shorter r @ [doubleQuote] \<and> doubleQuote = CHR 0x22"
  using assms by (rule ImportDeclaration_report) (simp add: doubleQuote_def)

theorem fix_is_double_quoted_witness:
  "ImportDeclaration (fixtureState ''/src/features/auth/login.ts'')
       (stringLiteral singleQuote ''../../utils/helpers'')
     = Some \<lparr>shorter = ''@utils/helpers'', shorterCount = 2, currentCount = 4,
             fixText = doubleQuote # ''@utils/helpers'' @ [doubleQuote]\<rparr>
   \<and> fixText \<lparr>shorter = ''@utils/helpers'', shorterCount = 2, currentCount = 4,
             fixText = doubleQuote # ''@utils/helpers'' @ [doubleQuote]\<rparr>
     = [doubleQuote] @ ''@utils/helpers'' @ [doubleQuote]"
proof -
  have e: "ImportDeclaration (fixtureState ''/src/features/auth/login.ts'')
       (stringLiteral singleQuote ''../../utils/helpers'')
     = Some \<lparr>shorter = ''@utils/helpers'', shorterCount = 2, currentCount = 4,
             fixText = doubleQuote # ''@utils/helpers'' @ [doubleQuote]\<rparr>"
    by code_simp
  from fix_is_double_quoted [OF e] e show ?thesis
    by simp
qed

end
